theory Spec2Isabelle
  imports Main "HOL-Library.Multiset"
begin

section \<open>The interpreter state the script runs in\<close>

text \<open>
  The script \<^verbatim>\<open>docs/dummy_data.py\<close> draws from Python's module-level random generator,
  builds two sets of strings, writes one file and prints one line. All four are kept in an
  explicit world that every operation takes and returns.

  Strings are kept as their UTF-8 bytes, which is what the file is opened with
  (\<^verbatim>\<open>encoding='utf-8'\<close>); one vocabulary entry is not ASCII.
\<close>

datatype error = ValueError | IndexError | OSError

text \<open>
  The generator is a sequence of raw draws and the position of the next one. Any
  deterministic generator has this shape, so a statement about all \<open>rng_state\<close>s holds
  for the generator of the standard library too.
\<close>

record rng_state =
  draws :: "nat \<Rightarrow> nat"
  pos :: nat

text \<open>
  \<open>set_order\<close> is the order in which \<^verbatim>\<open>list(set(xs))\<close> enumerates the set built from
  \<open>xs\<close>. CPython derives it from string hashes that are salted once per process, so it is
  a component of the world that the script only reads. \<open>unwritable\<close> holds the paths that
  cannot be opened for writing.
\<close>

record world =
  rng :: rng_state
  set_order :: "string list \<Rightarrow> string list"
  files :: "string \<rightharpoonup> string"
  unwritable :: "string set"
  stdout :: "string list"

definition valid_set_order :: "(string list \<Rightarrow> string list) \<Rightarrow> bool" where
  "valid_set_order ord \<longleftrightarrow> (\<forall>xs. distinct (ord xs) \<and> set (ord xs) = set xs)"

type_synonym 'a action = "world \<Rightarrow> error + ('a \<times> world)"

definition ret :: "'a \<Rightarrow> 'a action" where
  "ret x w = Inr (x, w)"

definition bnd :: "'a action \<Rightarrow> ('a \<Rightarrow> 'b action) \<Rightarrow> 'b action" where
  "bnd m f w = (case m w of Inl e \<Rightarrow> Inl e | Inr (x, w1) \<Rightarrow> f x w1)"

section \<open>The parts of the standard library the script calls\<close>

text \<open>
  \<^verbatim>\<open>random\<close>: every function reduces to drawing an index below a bound.
  \<^verbatim>\<open>choice\<close> raises IndexError on an empty sequence, \<^verbatim>\<open>randint(a, b)\<close> raises
  ValueError on an empty range, and \<^verbatim>\<open>sample(population, k)\<close> raises ValueError unless
  \<open>0 \<le> k \<le> len(population)\<close>. \<open>sample_loop\<close> is the selection loop of
  \<^verbatim>\<open>sample\<close>: draw an index into the pool, take that element, move the last element of
  the pool into its place and shrink the pool by one.
\<close>

definition randbelow :: "nat \<Rightarrow> nat action" where
  "randbelow n w =
     Inr (draws (rng w) (pos (rng w)) mod n, w\<lparr>rng := (rng w)\<lparr>pos := Suc (pos (rng w))\<rparr>\<rparr>)"

definition random_choice :: "'a list \<Rightarrow> 'a action" where
  "random_choice seq w =
     (if seq = [] then Inl IndexError
      else bnd (randbelow (length seq)) (\<lambda>j. ret (seq ! j)) w)"

definition random_randint :: "int \<Rightarrow> int \<Rightarrow> int action" where
  "random_randint a b w =
     (if b < a then Inl ValueError
      else bnd (randbelow (nat (b - a + 1))) (\<lambda>j. ret (a + int j)) w)"

fun sample_loop :: "'a list \<Rightarrow> nat \<Rightarrow> 'a list action" where
  "sample_loop pool 0 w = Inr ([], w)"
| "sample_loop pool (Suc k) w =
     bnd (randbelow (length pool)) (\<lambda>j.
     bnd (sample_loop (butlast (pool[j := last pool])) k) (\<lambda>rest.
     ret (pool ! j # rest))) w"

definition random_sample :: "'a list \<Rightarrow> int \<Rightarrow> 'a list action" where
  "random_sample population k w =
     (if k < 0 \<or> int (length population) < k then Inl ValueError
      else sample_loop population (nat k) w)"

text \<open>\<^verbatim>\<open>list(set(xs))\<close> reads the world's enumeration order and changes nothing.\<close>

definition list_of_set :: "string list \<Rightarrow> string list action" where
  "list_of_set xs w = Inr (set_order w xs, w)"

text \<open>\<^verbatim>\<open>sep.join(xs)\<close> and \<^verbatim>\<open>str(n)\<close> for an integer.\<close>

fun join :: "string \<Rightarrow> string list \<Rightarrow> string" where
  "join sep [] = []"
| "join sep [x] = x"
| "join sep (x # y # ys) = x @ sep @ join sep (y # ys)"

definition digit_char :: "nat \<Rightarrow> char" where
  "digit_char d = ''0123456789'' ! d"

fun str_nat :: "nat \<Rightarrow> string" where
  "str_nat n = (if n < 10 then [digit_char n] else str_nat (n div 10) @ [digit_char (n mod 10)])"

declare str_nat.simps [simp del]

definition str_int :: "int \<Rightarrow> string" where
  "str_int i = (if i < 0 then ''-'' @ str_nat (nat (- i)) else str_nat (nat i))"

text \<open>
  \<^verbatim>\<open>open(path, 'w', newline='')\<close> truncates or creates the file and fails on a path that
  cannot be written; \<^verbatim>\<open>write\<close> appends bytes as they are (no newline translation);
  \<^verbatim>\<open>print\<close> adds one line to standard output.
\<close>

definition open_w :: "string \<Rightarrow> unit action" where
  "open_w path w =
     (if path \<in> unwritable w then Inl OSError
      else Inr ((), w\<lparr>files := (files w)(path \<mapsto> [])\<rparr>))"

definition file_write :: "string \<Rightarrow> string \<Rightarrow> unit action" where
  "file_write path data w =
     Inr ((), w\<lparr>files := (files w)(path \<mapsto> (case files w path of None \<Rightarrow> [] | Some old \<Rightarrow> old) @ data)\<rparr>)"

definition print :: "string \<Rightarrow> unit action" where
  "print line w = Inr ((), w\<lparr>stdout := stdout w @ [line]\<rparr>)"

text \<open>
  \<^verbatim>\<open>csv.writer(file, delimiter=';', quoting=csv.QUOTE_ALL)\<close>: \<^verbatim>\<open>writerow\<close> puts every
  field between double quotes, doubling each double quote inside it, separates the fields
  with the delimiter and ends the row with the writer's default terminator, CR LF.
\<close>

definition dquote :: char where
  "dquote = CHR 0x22"

definition quote_field :: "string \<Rightarrow> string" where
  "quote_field f = dquote # concat (map (\<lambda>c. if c = dquote then [c, c] else [c]) f) @ [dquote]"

definition csv_row :: "string list \<Rightarrow> string" where
  "csv_row row = join '';'' (map quote_field row) @ [CHR 0x0D, CHR 0x0A]"

definition writerow :: "string \<Rightarrow> string list \<Rightarrow> unit action" where
  "writerow path row = file_write path (csv_row row)"

section \<open>The vocabularies of \<^verbatim>\<open>generate_random_data\<close>\<close>

definition burger_adjectives :: "string list" where
  "burger_adjectives =
    [''Spicy'', ''Savory'', ''Smoky'', ''Sweet'', ''Classic'', ''Hearty'', ''Zesty'',
     ''Tangy'', ''Bold'', ''Crispy'', ''Juicy'', ''Sassy'', ''Fiery'', ''Cool'', ''Rich'',
     ''Roasted'', ''Smothered'', ''Charred'']"

definition burger_nouns :: "string list" where
  "burger_nouns =
    [''Rancher'', ''Outlaw'', ''Gourmet'', ''Titan'', ''Maverick'', ''Patriot'', ''King'',
     ''Queen'', ''Warrior'', ''Legend'', ''Voyager'', ''Nomad'', ''Wrangler'', ''Hunter'',
     ''Trapper'']"

definition toppings :: "string list" where
  "toppings =
    [''jalape'' @ [CHR 0xE2, CHR 0x88, CHR 0x9A, CHR 0xC2, CHR 0xB1] @ ''o poppers'',
     ''bacon'', ''cheddar cheese'', ''smoked brisket'', ''crispy onion straws'',
     ''BBQ sauce'', ''avocado'', ''sprouts'', ''vegan aioli'', ''pepper jack cheese'',
     ''sriracha mayo'', ''blue cheese crumbles'', ''caramelized onions'', ''bacon jam'',
     ''tzatziki sauce'', ''cucumber'', ''red onion'', ''feta cheese'', ''pineapple-glaze'',
     ''swiss cheese'', ''fried egg'', ''mushrooms'', ''chorizo'', ''salsa'', ''guacamole'',
     ''pickled red cabbage'', ''pulled pork'', ''provolone'', ''arugula'',
     ''roasted red peppers'', ''goat cheese'', ''pesto'']"

definition buns :: "string list" where
  "buns =
    [''brioche bun'', ''pretzel bun'', ''sesame seed bun'', ''potato bun'',
     ''gluten-free bun'', ''ciabatta roll'', ''kaiser roll'', ''rye bun'']"

definition shared_beers :: "string list" where
  "shared_beers =
    [''Lagunitas IPA'', ''Sierra Nevada Pale Ale'', ''New Belgium Fat Tire'',
     ''Stone IPA'', ''Bell's Two Hearted Ale'', ''Modelo Especial'', ''Corona Extra'',
     ''Founders All Day IPA'', ''Heineken'', ''Pabst Blue Ribbon'',
     ''Blue Moon Belgian White'', ''Coors Light'', ''Michelob Ultra'', ''Miller Lite'',
     ''Bud Light'', ''Stella Artois'', ''Yuengling Lager'', ''Shiner Bock'',
     ''Heineken 0.0'', ''Lagunitas Daytime IPA'', ''Stone Delicious IPA'',
     ''Sam Adams Boston Lager'', ''Dogfish Head 60 Minute IPA'',
     ''New Belgium Voodoo Ranger IPA'', ''Guinness Draught'', ''Firestone Walker 805'',
     ''Sierra Nevada Hazy Little Thing'', ''Anchor Steam Beer'',
     ''Founders Kentucky Breakfast Stout'', ''Oskar Blues Dale's Pale Ale'',
     ''Allagash White'', ''Deschutes Fresh Squeezed IPA'', ''Troegs Perpetual IPA'',
     ''Goose Island IPA'', ''SweetWater 420 Pale Ale'', ''Narragansett Lager'',
     ''Victory Golden Monkey'', ''Cigar City Jai Alai IPA'',
     ''Stone Arrogant Bastard Ale'', ''Fat Tire Amber Ale'',
     ''Great Lakes Dortmunder Gold'', ''Left Hand Milk Stout'',
     ''Dogfish Head 90 Minute IPA'', ''Oskar Blues Old Chub'', ''Brooklyn Lager'',
     ''Bell's Oberon Ale'', ''Rogue Dead Guy Ale'', ''Ballast Point Sculpin IPA'',
     ''21st Amendment Brew Free! or Die IPA'', ''Surly Furious IPA'',
     ''Kona Big Wave Golden Ale'']"

definition tap_only_beers :: "string list" where
  "tap_only_beers =
    [''Pliny the Elder'', ''Russian River Blind Pig IPA'', ''Hill Farmstead Susan'',
     ''Tree House Julius'', ''The Alchemist Heady Topper'', ''Bell's Expedition Stout'',
     ''Toppling Goliath King Sue'', ''3 Floyds Zombie Dust'',
     ''Trillium Congress Street IPA'', ''WeldWerks Juicy Bits'',
     ''Other Half Double Dry Hopped'', ''Monkish Foggy Glasses'',
     ''Prairie Artisan Ales Bomb!'', ''Avery The Reverend'', ''Lost Abbey Devotion Ale'',
     ''Cantillon Gueuze'', ''Orval Trappist Ale'', ''Chimay Blue'', ''Rochefort 10'',
     ''Westvleteren 12'', ''Fremont Bourbon Barrel Aged Dark Star'',
     ''Founders Breakfast Stout'', ''Surly Darkness'', ''Dogfish Head Palo Santo Marron'',
     ''North Coast Old Rasputin'', ''Great Lakes Edmund Fitzgerald Porter'',
     ''Half Acre Daisy Cutter Pale Ale'', ''New Glarus Spotted Cow'',
     ''Perennial Artisan Ales Abraxas'', ''Jester King Le Petit Prince'',
     ''Deschutes The Abyss'', ''Troegs Nugget Nectar'', ''Alesmith Speedway Stout'',
     ''Modern Times Fortunate Islands'', ''Firestone Walker Pivo Pils'',
     ''Green Flash West Coast IPA'', ''Port Brewing Hop 15'',
     ''Pizza Port Chronic Amber Ale'', ''Societe The Pupil IPA'', ''Alesmith IPA'',
     ''Karl Strauss Red Trolley Ale'', ''Stone Ripper Pale Ale'',
     ''Sierra Nevada Torpedo Extra IPA'', ''KBS'', ''SweetWater IPA'',
     ''Creature Comforts Tropicalia'', ''Funky Buddha Last Snow'',
     ''Goose Island Bourbon County Brand Stout'']"

definition can_only_beers :: "string list" where
  "can_only_beers =
    [''White Claw Hard Seltzer Mango'', ''Truly Wild Berry Seltzer'', ''Tecate'',
     ''Angry Orchard Crisp Apple'', ''Strongbow Original Dry Cider'', ''Smirnoff Ice'',
     ''High Noon Pineapple'', ''Cutwater Tequila Margarita'', ''Twisted Tea Original'',
     ''Mike's Hard Lemonade'', ''Nutrl Watermelon'', ''Simply Spiked Lemonade'',
     ''Hard Seltzer Variety Packs'', ''Henry's Hard Soda'', ''Spindrift Spiked'',
     ''Topo Chico Hard Seltzer'', ''Press Seltzer'', ''Flying Embers Hard Kombucha'',
     ''JuneShine Hard Kombucha'', ''Dogfish Head SeaQuench Ale'', ''Two Roads Two Juicy'',
     ''Jack Daniel's Lynchburg Lemonade'', ''Old Style'', ''Coors Banquet'',
     ''Busch Light'', ''Keystone Light'', ''Pabst Blue Ribbon Easy'', ''Miller High Life'',
     ''Natural Light'', ''Bud Ice'', ''Genesee Cream Ale'', ''Red Stripe Lager'',
     ''Narragansett Fresh Catch'', ''Voodoo Ranger Juice Force IPA'',
     ''Odell 90 Shilling Ale'', ''Southern Tier Pumking Imperial Ale'',
     ''Dogfish Head Punkin Ale'', ''Wicked Weed Pernicious IPA'',
     ''Duvel Belgian Golden Ale'', ''Delirium Tremens'', ''Corsendonk Dubbel'',
     ''Lindemans Framboise Lambic'', ''Chimay White'', ''Stella Artois Cidre'',
     ''Oskar Blues Mama's Little Yella Pils'', ''21st Amendment El Sully'',
     ''Ska Modus Hoperandi'', ''Uinta Cutthroat Pale Ale'', ''New Glarus Moon Man'']"

definition sticker_types :: "string list" where
  "sticker_types =
    [''.png'', ''.jpg'', ''.svg'']"
section \<open>\<^verbatim>\<open>generate_random_data\<close>\<close>

text \<open>
  The statements of the function in their order; the draws happen in this order too: the two
  subsamples of the shared list first, then the burger, the tap beers, the can beers, the
  event number, and the sticker number before the sticker type.
\<close>

definition generate_random_data :: "string list action" where
  "generate_random_data =
     bnd (random_sample shared_beers (min (int (length shared_beers)) 15)) (\<lambda>tap_shared.
     bnd (list_of_set (tap_only_beers @ tap_shared)) (\<lambda>real_tap_beers.
     bnd (random_sample shared_beers (min (int (length shared_beers)) 15)) (\<lambda>can_shared.
     bnd (list_of_set (can_only_beers @ can_shared)) (\<lambda>real_can_beers.
     bnd (random_choice burger_adjectives) (\<lambda>burger_adjective.
     bnd (random_choice burger_nouns) (\<lambda>burger_noun.
     bnd (random_randint 2 4) (\<lambda>num_toppings.
     bnd (random_sample toppings num_toppings) (\<lambda>selected_toppings.
     bnd (random_choice buns) (\<lambda>bun.
     let burger_name = ''The '' @ burger_adjective @ '' '' @ burger_noun;
         burger_description =
           burger_name @ '' - '' @ join '', '' selected_toppings @ '' on a '' @ bun
     in
     bnd (random_randint 1 4) (\<lambda>num_tap_beers.
     bnd (random_sample real_tap_beers num_tap_beers) (\<lambda>selected_tap_beers.
     let tap_beers_str = join '', '' selected_tap_beers in
     bnd (random_randint 4 6) (\<lambda>num_can_beers.
     bnd (random_sample real_can_beers num_can_beers) (\<lambda>selected_can_beers.
     let can_beers_str = join '', '' selected_can_beers in
     bnd (random_randint 1000000 9999999) (\<lambda>event_number.
     let facebook_event =
           ''https://www.google.com/search?q=https://facebook.com/events/'' @ str_int event_number
     in
     bnd (random_randint 100 999) (\<lambda>sticker_number.
     bnd (random_choice sticker_types) (\<lambda>sticker_type.
     let sticker_name = ''sticker'' @ str_int sticker_number @ sticker_type in
     ret [burger_description, tap_beers_str, can_beers_str, facebook_event, sticker_name]
     ))))))))))))))))"

section \<open>\<^verbatim>\<open>create_csv_file\<close>\<close>

definition csv_path :: string where
  "csv_path = ''dummy_historical_data.csv''"

definition header :: "string list" where
  "header = [''Historical Burger'', ''Historical Tap Beers'', ''Historical Can Beers'',
             ''Historical Facebook Event'', ''Historical Sticker'']"

text \<open>The body of \<^verbatim>\<open>for _ in range(num_rows)\<close>, run the given number of times.\<close>

fun write_rows :: "nat \<Rightarrow> unit action" where
  "write_rows 0 w = Inr ((), w)"
| "write_rows (Suc n) w =
     bnd generate_random_data (\<lambda>row.
     bnd (writerow csv_path row) (\<lambda>_.
     write_rows n)) w"

text \<open>
  The argument is \<open>None\<close> when the caller leaves it out, as the entry point does; a negative
  count makes \<^verbatim>\<open>range\<close> empty.
\<close>

definition create_csv_file :: "int option \<Rightarrow> unit action" where
  "create_csv_file arg =
     (let num_rows = (case arg of None \<Rightarrow> 500 | Some n \<Rightarrow> n) in
      bnd (open_w csv_path) (\<lambda>_.
      bnd (writerow csv_path header) (\<lambda>_.
      bnd (write_rows (nat num_rows)) (\<lambda>_.
      print (''Successfully generated '' @ str_int num_rows @ '' rows of data in ''
             @ [CHR 0x27] @ ''dummy_historical_data.csv'' @ [CHR 0x27])))))"

definition main :: "unit action" where
  "main = create_csv_file None"

section \<open>Vocabulary of the properties\<close>

text \<open>
  \<open>rng_advanced w w'\<close>: the world \<open>w'\<close> is \<open>w\<close> with the generator moved to a later (or the
  same) position and nothing else touched.
\<close>

definition rng_advanced :: "world \<Rightarrow> world \<Rightarrow> bool" where
  "rng_advanced w w' \<longleftrightarrow> w' = w\<lparr>rng := (rng w)\<lparr>pos := pos (rng w')\<rparr>\<rparr>"



text \<open>The five field patterns of a generated row.\<close>

definition event_prefix :: string where
  "event_prefix = ''https://www.google.com/search?q=https://facebook.com/events/''"

definition decimal_digits :: "char set" where
  "decimal_digits = set ''0123456789''"

definition burger_pattern :: "string \<Rightarrow> bool" where
  "burger_pattern s \<longleftrightarrow>
     (\<exists>adj noun ts bun.
        adj \<in> set burger_adjectives \<and> noun \<in> set burger_nouns \<and> bun \<in> set buns
        \<and> 2 \<le> length ts \<and> length ts \<le> 4 \<and> distinct ts \<and> mset ts \<subseteq># mset toppings
        \<and> s = ''The '' @ adj @ '' '' @ noun @ '' - '' @ join '', '' ts @ '' on a '' @ bun)"

definition tap_pattern :: "string \<Rightarrow> bool" where
  "tap_pattern s \<longleftrightarrow>
     (\<exists>bs. 1 \<le> length bs \<and> length bs \<le> 4 \<and> distinct bs
        \<and> set bs \<subseteq> set tap_only_beers \<union> set shared_beers \<and> s = join '', '' bs)"

definition can_pattern :: "string \<Rightarrow> bool" where
  "can_pattern s \<longleftrightarrow>
     (\<exists>bs. 4 \<le> length bs \<and> length bs \<le> 6 \<and> distinct bs
        \<and> set bs \<subseteq> set can_only_beers \<union> set shared_beers \<and> s = join '', '' bs)"

definition event_pattern :: "string \<Rightarrow> bool" where
  "event_pattern s \<longleftrightarrow>
     (\<exists>n. 1000000 \<le> n \<and> n \<le> 9999999 \<and> s = event_prefix @ str_int n
        \<and> length (str_int n) = 7 \<and> set (str_int n) \<subseteq> decimal_digits)"

definition sticker_pattern :: "string \<Rightarrow> bool" where
  "sticker_pattern s \<longleftrightarrow>
     (\<exists>n ext. 100 \<le> n \<and> n \<le> 999 \<and> ext \<in> set sticker_types
        \<and> s = ''sticker'' @ str_int n @ ext
        \<and> length (str_int n) = 3 \<and> set (str_int n) \<subseteq> decimal_digits)"

definition row_pattern :: "string list \<Rightarrow> bool" where
  "row_pattern row \<longleftrightarrow>
     (\<exists>burger taps cans event sticker.
        row = [burger, taps, cans, event, sticker] \<and> burger_pattern burger \<and> tap_pattern taps
        \<and> can_pattern cans \<and> event_pattern event \<and> sticker_pattern sticker)"

text \<open>
  A field that the writer's format cannot break: not empty, and free of the delimiter, the
  quote character and both line-end characters.
\<close>

definition plain :: "string \<Rightarrow> bool" where
  "plain s \<longleftrightarrow>
     CHR '';'' \<notin> set s \<and> dquote \<notin> set s \<and> CHR 0x0A \<notin> set s \<and> CHR 0x0D \<notin> set s"

definition field_ok :: "string \<Rightarrow> bool" where
  "field_ok s \<longleftrightarrow> s \<noteq> [] \<and> plain s"



text \<open>
  The end-to-end scenario of the spec reads the written file back. The repository has no
  reader, so one is modelled here: it runs over the characters of the file, keeping the field,
  the record and the records read so far.
\<close>

datatype reader_mode = StartRecord | StartField | InQuoted | AfterQuote | AfterCR | Malformed

record reader =
  mode :: reader_mode
  field :: string
  record_fields :: "string list"
  records :: "string list list"

text \<open>
  Modelled from the spec: the step of the reader that parses the file back "with the stated
  delimiter/quoting", which the repository does not contain. Every field stands between double
  quotes, a doubled quote inside a field is one quote, \<open>;\<close> separates fields, CR LF ends a
  record, and anything else is malformed.
\<close>

definition reader_step :: "reader \<Rightarrow> char \<Rightarrow> reader" where
  "reader_step r c =
     (case mode r of
        StartRecord \<Rightarrow> if c = dquote then r\<lparr>mode := InQuoted\<rparr> else r\<lparr>mode := Malformed\<rparr>
      | StartField \<Rightarrow> if c = dquote then r\<lparr>mode := InQuoted\<rparr> else r\<lparr>mode := Malformed\<rparr>
      | InQuoted \<Rightarrow> if c = dquote then r\<lparr>mode := AfterQuote\<rparr> else r\<lparr>field := field r @ [c]\<rparr>
      | AfterQuote \<Rightarrow>
          if c = dquote then r\<lparr>mode := InQuoted, field := field r @ [c]\<rparr>
          else if c = CHR '';'' then
            r\<lparr>mode := StartField, field := [], record_fields := record_fields r @ [field r]\<rparr>
          else if c = CHR 0x0D then
            r\<lparr>mode := AfterCR, field := [], record_fields := [],
              records := records r @ [record_fields r @ [field r]]\<rparr>
          else r\<lparr>mode := Malformed\<rparr>
      | AfterCR \<Rightarrow> if c = CHR 0x0A then r\<lparr>mode := StartRecord\<rparr> else r\<lparr>mode := Malformed\<rparr>
      | Malformed \<Rightarrow> r)"

text \<open>
  Modelled from the spec: the reader itself, missing from the repository like its step. It
  returns the records when the text ends at the end of a record and fails otherwise.
\<close>

definition csv_reader :: "string \<Rightarrow> string list list option" where
  "csv_reader content =
     (let r = foldl reader_step
                \<lparr>mode = StartRecord, field = [], record_fields = [], records = []\<rparr> content
      in if mode r = StartRecord then Some (records r) else None)"

text \<open>
  Concrete worlds: \<open>w0\<close> with an arbitrary sequence of draws and sets enumerated in order of
  last insertion; \<open>wz\<close> and \<open>vz\<close> with the same generator (every draw is \<open>0\<close>), the same files
  and output, and two different enumeration orders.
\<close>

definition w0 :: world where
  "w0 = \<lparr>rng = \<lparr>draws = (\<lambda>i. 7 * i + 3), pos = 0\<rparr>, set_order = remdups,
          files = Map.empty, unwritable = {}, stdout = []\<rparr>"

definition wz :: world where
  "wz = \<lparr>rng = \<lparr>draws = (\<lambda>i. 0), pos = 0\<rparr>, set_order = remdups,
          files = Map.empty, unwritable = {}, stdout = []\<rparr>"


section \<open>The library model on concrete inputs\<close>

text \<open>
  The definitions compute. With every draw \<open>0\<close>, sampling three of \<^verbatim>\<open>"abcde"\<close> takes
  \<^verbatim>\<open>a\<close>, then \<^verbatim>\<open>e\<close>, which was moved into the place of \<^verbatim>\<open>a\<close>, then \<^verbatim>\<open>d\<close>; asking for six
  raises. The writer doubles a quote inside a field, and the reader undoes it.
\<close>

lemma random_sample_example:
  "map_sum id fst (random_sample ''abcde'' 3 wz) = Inr ''aed''"
proof -
  have "random_sample ''abcde'' 3 wz = sample_loop ''abcde'' (Suc (Suc (Suc 0))) wz"
    by (simp add: random_sample_def numeral_3_eq_3)
  then show ?thesis
    by (simp add: wz_def bnd_def randbelow_def ret_def)
qed

lemma random_sample_too_many: "map_sum id fst (random_sample ''abcde'' 6 wz) = Inl ValueError"
  by (simp add: random_sample_def)

lemma random_randint_example: "map_sum id fst (random_randint 4 6 w0) = Inr 4"
  by (simp add: random_randint_def w0_def bnd_def randbelow_def ret_def)

lemma str_int_examples:
  "str_int 1000339 = ''1000339''" "str_int 0 = ''0''" "str_int (- 42) = ''-42''"
  by (simp_all add: str_int_def str_nat.simps digit_char_def)

lemma csv_row_example:
  "csv_row [''a;b'', ''6'' @ [dquote] @ '' tall''] =
     [dquote] @ ''a;b'' @ [dquote] @ '';'' @ [dquote] @ ''6'' @ [dquote, dquote] @ '' tall''
       @ [dquote] @ [CHR 0x0D, CHR 0x0A]"
  "csv_reader (csv_row [''a;b'', ''6'' @ [dquote] @ '' tall''] @ csv_row [''x''])
     = Some [[''a;b'', ''6'' @ [dquote] @ '' tall''], [''x'']]"
  "csv_reader ''a;b'' = None"
  by (simp_all add: csv_row_def quote_field_def csv_reader_def reader_step_def dquote_def)


section \<open>The library calls return, and what they return\<close>

text \<open>
  Each fact below is a case rule: under the stated condition the call returns, its value has
  the stated shape, and the world it leaves is the old one with the generator advanced.
\<close>

lemma rng_advanced_iff:
  "rng_advanced w w' \<longleftrightarrow>
     draws (rng w') = draws (rng w) \<and> set_order w' = set_order w \<and> files w' = files w
     \<and> unwritable w' = unwritable w \<and> stdout w' = stdout w"
proof (cases w)
  case w: (fields r ord fs un out)
  show ?thesis
  proof (cases w')
    case w': (fields r' ord' fs' un' out')
    show ?thesis
      unfolding rng_advanced_def w w' by (cases r, cases r') auto
  qed
qed

lemma rng_advanced_refl: "rng_advanced w w"
  by (simp add: rng_advanced_iff)

lemma rng_advanced_trans: "rng_advanced w w1 \<Longrightarrow> rng_advanced w1 w2 \<Longrightarrow> rng_advanced w w2"
  by (simp add: rng_advanced_iff)

lemma rng_advanced_set_order: "rng_advanced w w' \<Longrightarrow> set_order w' = set_order w"
  by (simp add: rng_advanced_iff)


lemma randbelow_cases:
  obtains j w' where "randbelow n w = Inr (j, w')" "0 < n \<Longrightarrow> j < n" "rng_advanced w w'"
  by (simp add: randbelow_def rng_advanced_iff)

lemma random_choice_cases:
  assumes "seq \<noteq> []"
  obtains x w' where "random_choice seq w = Inr (x, w')" "x \<in> set seq" "rng_advanced w w'"
proof -
  obtain j w' where j: "randbelow (length seq) w = Inr (j, w')" "j < length seq" "rng_advanced w w'"
    using assms by (auto intro: randbelow_cases [of "length seq" w])
  then have "random_choice seq w = Inr (seq ! j, w')"
    using assms by (simp add: random_choice_def bnd_def ret_def)
  with j that show thesis by simp
qed

lemma random_randint_cases:
  assumes "a \<le> b"
  obtains i w' where "random_randint a b w = Inr (i, w')" "a \<le> i" "i \<le> b" "rng_advanced w w'"
proof -
  obtain j w' where j: "randbelow (nat (b - a + 1)) w = Inr (j, w')" "j < nat (b - a + 1)"
      "rng_advanced w w'"
    using assms by (auto intro: randbelow_cases [of "nat (b - a + 1)" w])
  then have "random_randint a b w = Inr (a + int j, w')"
    using assms by (simp add: random_randint_def bnd_def ret_def)
  moreover have "a \<le> a + int j" "a + int j \<le> b" using j(2) by auto
  ultimately show thesis using j(3) that by blast
qed

lemma mset_swap_out:
  assumes "j < length pool"
  shows "mset (butlast (pool[j := last pool])) = mset pool - {#pool ! j#}"
proof (cases pool rule: rev_cases)
  case Nil
  with assms show ?thesis by simp
next
  case (snoc xs l)
  show ?thesis
  proof (cases "j < length xs")
    case True
    then show ?thesis
      by (simp add: snoc list_update_append nth_append mset_update)
  next
    case False
    with assms snoc have "j = length xs" by simp
    then show ?thesis by (simp add: snoc)
  qed
qed

lemma sample_loop_cases:
  assumes "k \<le> length pool"
  obtains ys w' where "sample_loop pool k w = Inr (ys, w')" "length ys = k"
    "mset ys \<subseteq># mset pool" "rng_advanced w w'"
proof -
  have "\<exists>ys w'. sample_loop pool k w = Inr (ys, w') \<and> length ys = k
      \<and> mset ys \<subseteq># mset pool \<and> rng_advanced w w'"
    using assms
  proof (induction k arbitrary: pool w)
    case 0
    then show ?case by (simp add: rng_advanced_refl)
  next
    case (Suc k)
    obtain j w1 where j: "randbelow (length pool) w = Inr (j, w1)" "j < length pool"
        "rng_advanced w w1"
      using Suc.prems by (auto intro: randbelow_cases [of "length pool" w])
    let ?rest = "butlast (pool[j := last pool])"
    have "k \<le> length ?rest" using Suc.prems by simp
    from Suc.IH [OF this] obtain ys w2 where ys: "sample_loop ?rest k w1 = Inr (ys, w2)"
        "length ys = k" "mset ys \<subseteq># mset ?rest" "rng_advanced w1 w2"
      by blast
    have run: "sample_loop pool (Suc k) w = Inr (pool ! j # ys, w2)"
      using j(1) ys(1) by (simp add: bnd_def ret_def)
    have "mset ys \<subseteq># mset pool - {#pool ! j#}"
      using ys(3) mset_swap_out [OF j(2)] by simp
    then have "mset (pool ! j # ys) \<subseteq># mset pool"
      using j(2) by (simp add: insert_subset_eq_iff)
    with run ys(2) rng_advanced_trans [OF j(3) ys(4)] show ?case by auto
  qed
  with that show thesis by blast
qed

lemma random_sample_cases:
  assumes "0 \<le> k" "k \<le> int (length population)"
  obtains ys w' where "random_sample population k w = Inr (ys, w')" "length ys = nat k"
    "mset ys \<subseteq># mset population" "rng_advanced w w'"
proof -
  have "nat k \<le> length population" using assms by simp
  from sample_loop_cases [OF this, of w] obtain ys w' where
    "sample_loop population (nat k) w = Inr (ys, w')" "length ys = nat k"
    "mset ys \<subseteq># mset population" "rng_advanced w w'" by blast
  with assms that show thesis by (simp add: random_sample_def)
qed

text \<open>A list taken from another without replacement.\<close>

lemma sub_mset_distinct: "mset ys \<subseteq># mset xs \<Longrightarrow> distinct xs \<Longrightarrow> distinct ys"
proof -
  assume sub: "mset ys \<subseteq># mset xs" and d: "distinct xs"
  from sub obtain Z where "mset xs = mset ys + Z"
    by (auto simp: mset_subset_eq_exists_conv)
  moreover obtain zs where "Z = mset zs"
    using ex_mset [of Z] by auto
  ultimately have "mset xs = mset (ys @ zs)" by simp
  with d have "distinct (ys @ zs)"
    using mset_eq_imp_distinct_iff by blast
  then show "distinct ys" by simp
qed

lemma sub_mset_set: "mset ys \<subseteq># mset xs \<Longrightarrow> set ys \<subseteq> set xs"
  by (metis set_mset_mono set_mset_mset)

section \<open>One call of \<^verbatim>\<open>generate_random_data\<close>\<close>

text \<open>Sizes of the lists of the source, and the absence of repeated entries.\<close>

lemma length_shared_beers: "length shared_beers = 51"
  by (simp add: shared_beers_def)

lemma length_toppings: "length toppings = 32"
  by (simp add: toppings_def)

lemma length_tap_only_beers: "length tap_only_beers = 48"
  by (simp add: tap_only_beers_def)

lemma length_can_only_beers: "length can_only_beers = 49"
  by (simp add: can_only_beers_def)

lemma distinct_toppings: "distinct toppings"
  unfolding toppings_def by simp

lemma distinct_tap_only_beers: "distinct tap_only_beers"
  unfolding tap_only_beers_def by simp

lemma distinct_can_only_beers: "distinct can_only_beers"
  unfolding can_only_beers_def by simp

text \<open>A pool is at least as long as the exclusive list it was built from.\<close>

lemma pool_size:
  assumes "valid_set_order ord" "distinct base"
  shows "length base \<le> length (ord (base @ extra))"
proof -
  have "length (ord (base @ extra)) = card (set (base @ extra))"
    using assms(1) by (metis valid_set_order_def distinct_card)
  moreover have "card (set base) \<le> card (set (base @ extra))"
    by (rule card_mono) auto
  ultimately show ?thesis
    using assms(2) by (simp add: distinct_card)
qed

text \<open>
  The call returns from every world with a valid enumeration order. The rule names the values
  drawn on the way, the worlds in which the two subsamples and the tap beers are drawn, and
  the row that is returned.
\<close>

lemma generate_random_data_cases:
  assumes "valid_set_order (set_order w)"
  obtains tap_shared w1 can_shared w2 adj noun ts bun w7 w8 taps w9 cans ev n ext w'
  where "random_sample shared_beers 15 w = Inr (tap_shared, w1)"
    and "random_sample shared_beers 15 w1 = Inr (can_shared, w2)"
    and "length tap_shared = 15" "mset tap_shared \<subseteq># mset shared_beers"
    and "length can_shared = 15" "mset can_shared \<subseteq># mset shared_beers"
    and "adj \<in> set burger_adjectives" "noun \<in> set burger_nouns" "bun \<in> set buns"
    and "2 \<le> length ts" "length ts \<le> 4" "mset ts \<subseteq># mset toppings"
    and "1 \<le> length taps" "length taps \<le> 4"
      "mset taps \<subseteq># mset (set_order w (tap_only_beers @ tap_shared))"
    and "4 \<le> length cans" "length cans \<le> 6"
      "mset cans \<subseteq># mset (set_order w (can_only_beers @ can_shared))"
    and "1000000 \<le> ev" "ev \<le> 9999999" "100 \<le> n" "n \<le> 999" "ext \<in> set sticker_types"
    and "rng_advanced w w7"
      "random_randint 1 4 w7 = Inr (int (length taps), w8)"
      "random_sample (set_order w (tap_only_beers @ tap_shared)) (int (length taps)) w8
         = Inr (taps, w9)"
    and "rng_advanced w w'"
    and "generate_random_data w =
      Inr ([''The '' @ adj @ '' '' @ noun @ '' - '' @ join '', '' ts @ '' on a '' @ bun,
            join '', '' taps, join '', '' cans, event_prefix @ str_int ev,
            ''sticker'' @ str_int n @ ext], w')"
proof -
  let ?ord = "set_order w"
  obtain tap_shared w1 where s1: "random_sample shared_beers 15 w = Inr (tap_shared, w1)"
      "length tap_shared = nat 15" "mset tap_shared \<subseteq># mset shared_beers" "rng_advanced w w1"
    by (rule random_sample_cases [of 15 shared_beers w]) (simp_all add: length_shared_beers)
  obtain can_shared w2 where s2: "random_sample shared_beers 15 w1 = Inr (can_shared, w2)"
      "length can_shared = nat 15" "mset can_shared \<subseteq># mset shared_beers" "rng_advanced w1 w2"
    by (rule random_sample_cases [of 15 shared_beers w1]) (simp_all add: length_shared_beers)
  have o1: "set_order w1 = ?ord" and o2: "set_order w2 = ?ord"
    using s1(4) s2(4) by (simp_all add: rng_advanced_set_order)
  obtain adj w3 where c1: "random_choice burger_adjectives w2 = Inr (adj, w3)"
      "adj \<in> set burger_adjectives" "rng_advanced w2 w3"
    by (rule random_choice_cases [of burger_adjectives w2]) (simp add: burger_adjectives_def)
  obtain noun w4 where c2: "random_choice burger_nouns w3 = Inr (noun, w4)"
      "noun \<in> set burger_nouns" "rng_advanced w3 w4"
    by (rule random_choice_cases [of burger_nouns w3]) (simp add: burger_nouns_def)
  obtain k w5 where r1: "random_randint 2 4 w4 = Inr (k, w5)" "2 \<le> k" "k \<le> 4" "rng_advanced w4 w5"
    by (rule random_randint_cases [of 2 4 w4]) simp
  obtain ts w6 where s3: "random_sample toppings k w5 = Inr (ts, w6)" "length ts = nat k"
      "mset ts \<subseteq># mset toppings" "rng_advanced w5 w6"
    using r1(2,3) by (auto intro: random_sample_cases [of k toppings w5] simp: length_toppings)
  obtain bun w7 where c3: "random_choice buns w6 = Inr (bun, w7)" "bun \<in> set buns"
      "rng_advanced w6 w7"
    by (rule random_choice_cases [of buns w6]) (simp add: buns_def)
  obtain kt w8 where r2: "random_randint 1 4 w7 = Inr (kt, w8)" "1 \<le> kt" "kt \<le> 4"
      "rng_advanced w7 w8"
    by (rule random_randint_cases [of 1 4 w7]) simp
  let ?taps = "?ord (tap_only_beers @ tap_shared)"
  have "length tap_only_beers \<le> length ?taps"
    using assms distinct_tap_only_beers by (rule pool_size)
  then have "kt \<le> int (length ?taps)"
    using r2(3) by (simp add: length_tap_only_beers)
  then obtain taps w9 where s4: "random_sample ?taps kt w8 = Inr (taps, w9)"
      "length taps = nat kt" "mset taps \<subseteq># mset ?taps" "rng_advanced w8 w9"
    using r2(2) by (auto intro: random_sample_cases [of kt ?taps w8])
  obtain kc w10 where r3: "random_randint 4 6 w9 = Inr (kc, w10)" "4 \<le> kc" "kc \<le> 6"
      "rng_advanced w9 w10"
    by (rule random_randint_cases [of 4 6 w9]) simp
  let ?cans = "?ord (can_only_beers @ can_shared)"
  have "length can_only_beers \<le> length ?cans"
    using assms distinct_can_only_beers by (rule pool_size)
  then have "kc \<le> int (length ?cans)"
    using r3(3) by (simp add: length_can_only_beers)
  then obtain cans w11 where s5: "random_sample ?cans kc w10 = Inr (cans, w11)"
      "length cans = nat kc" "mset cans \<subseteq># mset ?cans" "rng_advanced w10 w11"
    using r3(2) by (auto intro: random_sample_cases [of kc ?cans w10])
  obtain ev w12 where r4: "random_randint 1000000 9999999 w11 = Inr (ev, w12)"
      "1000000 \<le> ev" "ev \<le> 9999999" "rng_advanced w11 w12"
    by (rule random_randint_cases [of 1000000 9999999 w11]) simp
  obtain n w13 where r5: "random_randint 100 999 w12 = Inr (n, w13)" "100 \<le> n" "n \<le> 999"
      "rng_advanced w12 w13"
    by (rule random_randint_cases [of 100 999 w12]) simp
  obtain ext w14 where c4: "random_choice sticker_types w13 = Inr (ext, w14)"
      "ext \<in> set sticker_types" "rng_advanced w13 w14"
    by (rule random_choice_cases [of sticker_types w13]) (simp add: sticker_types_def)
  note step = rng_advanced_trans
  have frame7: "rng_advanced w w7"
    by (rule step [OF step [OF step [OF step [OF step [OF step [OF s1(4) s2(4)] c1(3)] c2(3)]
        r1(4)] s3(4)] c3(3)])
  have frame: "rng_advanced w w14"
    by (rule step [OF step [OF step [OF step [OF step [OF step [OF step [OF frame7 r2(4)]
        s4(4)] r3(4)] s5(4)] r4(4)] r5(4)] c4(3)])
  have kt: "int (length taps) = kt"
    using s4(2) r2(2) by simp
  have run: "generate_random_data w =
      Inr ([''The '' @ adj @ '' '' @ noun @ '' - '' @ join '', '' ts @ '' on a '' @ bun,
            join '', '' taps, join '', '' cans, event_prefix @ str_int ev,
            ''sticker'' @ str_int n @ ext], w14)"
    unfolding generate_random_data_def bnd_def list_of_set_def ret_def Let_def event_prefix_def
    by (simp add: length_shared_beers s1(1) s2(1) o1 o2 c1(1) c2(1) r1(1) s3(1) c3(1) r2(1)
        s4(1) r3(1) s5(1) r4(1) r5(1) c4(1))
  show thesis
  proof (rule that [OF s1(1) s2(1) _ s1(3) _ s2(3) c1(2) c2(2) c3(2) _ _ s3(3) _ _ s4(3) _ _
        s5(3) r4(2) r4(3) r5(2) r5(3) c4(2) frame7 _ _ frame run])
    show "length tap_shared = 15" using s1(2) by simp
    show "length can_shared = 15" using s2(2) by simp
    show "2 \<le> length ts" "length ts \<le> 4" using s3(2) r1(2,3) by simp_all
    show "1 \<le> length taps" "length taps \<le> 4" using s4(2) r2(2,3) by simp_all
    show "4 \<le> length cans" "length cans \<le> 6" using s5(2) r3(2,3) by simp_all
    show "random_randint 1 4 w7 = Inr (int (length taps), w8)"
      using r2(1) kt by simp
    show "random_sample (set_order w (tap_only_beers @ tap_shared)) (int (length taps)) w8
        = Inr (taps, w9)"
      using s4(1) kt by simp
  qed
qed

section \<open>What a call depends on\<close>










section \<open>The written text: lines and reading back\<close>

subsection \<open>Rows whose fields hold no line feed are lines\<close>







subsection \<open>Quoting a field that holds no quote\<close>


subsection \<open>The reader recovers the rows that were written\<close>







section \<open>The characters of the fields\<close>

subsection \<open>Decimal numerals\<close>

lemma digit_char_digit: "d < 10 \<Longrightarrow> digit_char d \<in> decimal_digits"
  unfolding digit_char_def decimal_digits_def by (rule nth_mem) simp

lemma set_str_nat: "set (str_nat n) \<subseteq> decimal_digits"
proof (induction n rule: str_nat.induct)
  case (1 n)
  show ?case
  proof (cases "n < 10")
    case True
    then show ?thesis
      using str_nat.simps [of n] by (simp add: digit_char_digit)
  next
    case False
    then show ?thesis
      using 1 str_nat.simps [of n] by (simp add: digit_char_digit)
  qed
qed

lemma length_str_nat: "10 ^ k \<le> n \<Longrightarrow> n < 10 ^ Suc k \<Longrightarrow> length (str_nat n) = Suc k"
proof (induction k arbitrary: n)
  case 0
  then show ?case
    using str_nat.simps [of n] by simp
next
  case (Suc k)
  have "10 * 10 ^ k \<le> n" using Suc.prems(1) by simp
  moreover have "(1::nat) \<le> 10 ^ k" by simp
  ultimately have big: "\<not> n < 10" by linarith
  have "10 ^ k \<le> n div 10" "n div 10 < 10 ^ Suc k"
    using Suc.prems by simp_all
  then have "length (str_nat (n div 10)) = Suc k"
    by (rule Suc.IH)
  then show ?case
    using big str_nat.simps [of n] by simp
qed

lemma str_nat_not_Nil: "str_nat n \<noteq> []"
  using str_nat.simps [of n] by (cases "n < 10") simp_all

lemma plain_digits: "set s \<subseteq> decimal_digits \<Longrightarrow> plain s"
  by (auto simp: plain_def decimal_digits_def dquote_def)

lemma str_int_nonneg: "0 \<le> i \<Longrightarrow> str_int i = str_nat (nat i)"
  by (simp add: str_int_def)

lemma str_int_digits:
  assumes "10 ^ k \<le> i" "i < 10 ^ Suc k"
  shows "length (str_int i) = Suc k" "set (str_int i) \<subseteq> decimal_digits" "field_ok (str_int i)"
proof -
  have nonneg: "0 \<le> i"
    using assms(1) by (meson order_trans zero_le_numeral zero_le_power)
  then have eq: "str_int i = str_nat (nat i)"
    by (rule str_int_nonneg)
  have "10 ^ k \<le> nat i" "nat i < 10 ^ Suc k"
    using assms nonneg by (simp_all add: le_nat_iff nat_less_iff)
  then show "length (str_int i) = Suc k"
    unfolding eq by (rule length_str_nat)
  show "set (str_int i) \<subseteq> decimal_digits"
    unfolding eq by (rule set_str_nat)
  then show "field_ok (str_int i)"
    by (simp add: field_ok_def plain_digits eq str_nat_not_Nil)
qed

subsection \<open>Strings free of the characters the format uses\<close>

lemma plain_Nil: "plain []"
  by (simp add: plain_def)

lemma plain_append: "plain (a @ b) \<longleftrightarrow> plain a \<and> plain b"
  by (auto simp: plain_def)

lemma plain_join: "plain sep \<Longrightarrow> \<forall>x\<in>set xs. plain x \<Longrightarrow> plain (join sep xs)"
  by (induction sep xs rule: join.induct) (simp_all add: plain_Nil plain_append)

lemma join_not_Nil: "xs \<noteq> [] \<Longrightarrow> \<forall>x\<in>set xs. x \<noteq> [] \<Longrightarrow> join sep xs \<noteq> []"
  by (induction sep xs rule: join.induct) simp_all

lemma field_ok_join:
  assumes "xs \<noteq> []" "\<forall>x\<in>set xs. field_ok x" "plain sep"
  shows "field_ok (join sep xs)"
  using assms by (simp add: field_ok_def plain_join join_not_Nil)

lemma field_ok_burger_adjectives: "\<forall>x\<in>set burger_adjectives. field_ok x"
  by (simp add: burger_adjectives_def field_ok_def plain_def dquote_def)

lemma field_ok_burger_nouns: "\<forall>x\<in>set burger_nouns. field_ok x"
  by (simp add: burger_nouns_def field_ok_def plain_def dquote_def)

lemma field_ok_toppings: "\<forall>x\<in>set toppings. field_ok x"
  by (simp add: toppings_def field_ok_def plain_def dquote_def)

lemma field_ok_buns: "\<forall>x\<in>set buns. field_ok x"
  by (simp add: buns_def field_ok_def plain_def dquote_def)

lemma field_ok_shared_beers: "\<forall>x\<in>set shared_beers. field_ok x"
  by (simp add: shared_beers_def field_ok_def plain_def dquote_def)

lemma field_ok_tap_only_beers: "\<forall>x\<in>set tap_only_beers. field_ok x"
  by (simp add: tap_only_beers_def field_ok_def plain_def dquote_def)

lemma field_ok_can_only_beers: "\<forall>x\<in>set can_only_beers. field_ok x"
  by (simp add: can_only_beers_def field_ok_def plain_def dquote_def)

lemma field_ok_sticker_types: "\<forall>x\<in>set sticker_types. field_ok x"
  by (simp add: sticker_types_def field_ok_def plain_def dquote_def)

subsection \<open>The row of one call: patterns and characters\<close>

lemma pool_picks:
  assumes "valid_set_order ord" "mset picks \<subseteq># mset (ord (base @ sub))"
    "mset sub \<subseteq># mset shared_beers"
  shows "distinct picks" "set picks \<subseteq> set base \<union> set shared_beers"
proof -
  have "distinct (ord (base @ sub))" "set (ord (base @ sub)) = set (base @ sub)"
    using assms(1) by (simp_all add: valid_set_order_def)
  then show "distinct picks" "set picks \<subseteq> set base \<union> set shared_beers"
    using assms(2,3) sub_mset_distinct [of picks "ord (base @ sub)"]
      sub_mset_set [of picks "ord (base @ sub)"] sub_mset_set [of sub shared_beers]
    by auto
qed

lemma plain_literals:
  "plain ''The ''" "plain '' ''" "plain '' - ''" "plain '', ''" "plain '' on a ''"
  "plain ''sticker''" "plain event_prefix"
  by (simp_all add: plain_def dquote_def event_prefix_def)

lemma plain_Cons:
  "plain (c # s) \<longleftrightarrow>
     c \<noteq> CHR '';'' \<and> c \<noteq> CHR 0x22 \<and> c \<noteq> CHR 0x0A \<and> c \<noteq> CHR 0x0D \<and> plain s"
  by (auto simp: plain_def dquote_def)

lemma field_ok_plain: "field_ok s \<Longrightarrow> plain s"
  by (simp add: field_ok_def)

lemma generate_random_data_row:
  assumes "valid_set_order (set_order w)"
  obtains row w' where "generate_random_data w = Inr (row, w')" "row_pattern row"
    "\<forall>f\<in>set row. field_ok f" "rng_advanced w w'"
proof -
  from assms obtain tap_shared can_shared :: "string list" and w1 w2 w7 w8 w9 w' :: world
    and adj noun bun ext :: string and ts taps cans :: "string list" and ev n :: int
    where g: "mset tap_shared \<subseteq># mset shared_beers" "mset can_shared \<subseteq># mset shared_beers"
      "adj \<in> set burger_adjectives" "noun \<in> set burger_nouns" "bun \<in> set buns"
      "2 \<le> length ts" "length ts \<le> 4" "mset ts \<subseteq># mset toppings"
      "1 \<le> length taps" "length taps \<le> 4"
      "mset taps \<subseteq># mset (set_order w (tap_only_beers @ tap_shared))"
      "4 \<le> length cans" "length cans \<le> 6"
      "mset cans \<subseteq># mset (set_order w (can_only_beers @ can_shared))"
      "1000000 \<le> ev" "ev \<le> 9999999" "100 \<le> n" "n \<le> 999" "ext \<in> set sticker_types"
      "rng_advanced w w'"
      "generate_random_data w =
        Inr ([''The '' @ adj @ '' '' @ noun @ '' - '' @ join '', '' ts @ '' on a '' @ bun,
              join '', '' taps, join '', '' cans, event_prefix @ str_int ev,
              ''sticker'' @ str_int n @ ext], w')"
    by (rule generate_random_data_cases)
  let ?burger = "''The '' @ adj @ '' '' @ noun @ '' - '' @ join '', '' ts @ '' on a '' @ bun"
  have ts: "distinct ts" "set ts \<subseteq> set toppings"
    using g(8) distinct_toppings by (auto dest: sub_mset_distinct sub_mset_set)
  have taps: "distinct taps" "set taps \<subseteq> set tap_only_beers \<union> set shared_beers"
    using pool_picks [OF assms g(11) g(1)] by simp_all
  have cans: "distinct cans" "set cans \<subseteq> set can_only_beers \<union> set shared_beers"
    using pool_picks [OF assms g(14) g(2)] by simp_all
  have ev: "length (str_int ev) = 7" "set (str_int ev) \<subseteq> decimal_digits" "field_ok (str_int ev)"
    using str_int_digits [of 6 ev] g(15,16) by simp_all
  have n: "length (str_int n) = 3" "set (str_int n) \<subseteq> decimal_digits" "field_ok (str_int n)"
    using str_int_digits [of 2 n] g(17,18) by simp_all
  have "burger_pattern ?burger"
    unfolding burger_pattern_def using g(3-8) ts(1) by blast
  moreover have "tap_pattern (join '', '' taps)"
    unfolding tap_pattern_def using g(9,10) taps by blast
  moreover have "can_pattern (join '', '' cans)"
    unfolding can_pattern_def using g(12,13) cans by blast
  moreover have "event_pattern (event_prefix @ str_int ev)"
    unfolding event_pattern_def using g(15,16) ev(1,2) by blast
  moreover have "sticker_pattern (''sticker'' @ str_int n @ ext)"
    unfolding sticker_pattern_def using g(17-19) n(1,2) by blast
  ultimately have pattern: "row_pattern [?burger, join '', '' taps, join '', '' cans,
      event_prefix @ str_int ev, ''sticker'' @ str_int n @ ext]"
    unfolding row_pattern_def by blast
  have "plain adj" "plain noun" "plain bun" "plain ext" "\<forall>x\<in>set ts. plain x"
    using g(3,4,5,19) ts(2) field_ok_burger_adjectives field_ok_burger_nouns field_ok_buns
      field_ok_sticker_types field_ok_toppings
    by (auto dest: field_ok_plain)
  then have "plain ?burger" "plain (''sticker'' @ str_int n @ ext)"
    using n(3) by (simp_all add: plain_append plain_Cons plain_Nil plain_join field_ok_plain)
  then have f1: "field_ok ?burger" and f5: "field_ok (''sticker'' @ str_int n @ ext)"
    by (simp_all add: field_ok_def)
  have "\<forall>x\<in>set taps. field_ok x" "taps \<noteq> []"
    using taps(2) g(9) field_ok_tap_only_beers field_ok_shared_beers by auto
  then have f2: "field_ok (join '', '' taps)"
    by (simp add: field_ok_join plain_literals)
  have "\<forall>x\<in>set cans. field_ok x" "cans \<noteq> []"
    using cans(2) g(12) field_ok_can_only_beers field_ok_shared_beers by auto
  then have f3: "field_ok (join '', '' cans)"
    by (simp add: field_ok_join plain_literals)
  have f4: "field_ok (event_prefix @ str_int ev)"
    using ev(3) by (simp add: field_ok_def plain_append plain_Cons plain_literals plain_Nil)
  show thesis
    using that [OF g(21) pattern _ g(20)] f1 f2 f3 f4 f5 by simp
qed

section \<open>The loop and the file\<close>






section \<open>A generator whose draws are all zero\<close>











section \<open>\<^verbatim>\<open>generate_random_data\<close>: the fields of a row\<close>

lemma w0_valid: "valid_set_order (set_order w0)"
  by (simp add: w0_def valid_set_order_def)







text \<open>
  C5. Every call returns, and the fourth field of its row is the fixed prefix followed by the
  decimal numeral of an integer between 1000000 and 9999999, seven digits, and nothing more.
\<close>

theorem event_url_pattern:
  assumes "valid_set_order (set_order w)"
  shows "\<exists>row w'. generate_random_data w = Inr (row, w') \<and> event_pattern (row ! 3)"
proof -
  from assms obtain row w' where "generate_random_data w = Inr (row, w')" "row_pattern row"
    by (rule generate_random_data_row)
  then show ?thesis
    by (auto simp: row_pattern_def)
qed

theorem event_url_pattern_witness:
  "valid_set_order (set_order w0)
   \<and> (\<exists>row w'. generate_random_data w0 = Inr (row, w') \<and> event_pattern (row ! 3))"
  using w0_valid event_url_pattern [OF w0_valid] by (rule conjI)

text \<open>
  C6. Every call returns, and the fifth field of its row is \<^verbatim>\<open>sticker\<close>, the decimal numeral
  of an integer between 100 and 999, three digits, and one of \<^verbatim>\<open>.png\<close>, \<^verbatim>\<open>.jpg\<close>,
  \<^verbatim>\<open>.svg\<close>.
\<close>

theorem sticker_name_pattern:
  assumes "valid_set_order (set_order w)"
  shows "\<exists>row w'. generate_random_data w = Inr (row, w') \<and> sticker_pattern (row ! 4)
    \<and> sticker_types = [''.png'', ''.jpg'', ''.svg'']"
proof -
  from assms obtain row w' where "generate_random_data w = Inr (row, w')" "row_pattern row"
    by (rule generate_random_data_row)
  then show ?thesis
    by (auto simp: row_pattern_def sticker_types_def)
qed

theorem sticker_name_pattern_witness:
  "valid_set_order (set_order w0)
   \<and> (\<exists>row w'. generate_random_data w0 = Inr (row, w') \<and> sticker_pattern (row ! 4)
    \<and> sticker_types = [''.png'', ''.jpg'', ''.svg''])"
  using w0_valid sticker_name_pattern [OF w0_valid] by (rule conjI)






section \<open>\<^verbatim>\<open>create_csv_file\<close>: the file\<close>













end
